theory Spec2Isabelle
  imports Complex_Main "HOL-Library.Multiset" "HOL-Library.Sublist"
begin

section \<open>Python strings\<close>

text \<open>
  A Python \<open>str\<close> is a sequence of Unicode code points. A code point is a natural
  number here, so that \<open>str.strip\<close> can be given Python's own notion of whitespace,
  which reaches beyond ASCII. \<open>pystr\<close> reads an ASCII literal as such a sequence.
\<close>

type_synonym pystr = "nat list"

definition pystr :: "string \<Rightarrow> pystr" where
  "pystr s = map of_char s"

definition comma :: nat where
  "comma = 0x2C"

definition newline :: nat where
  "newline = 0x0A"

text \<open>
  \<open>str.isspace\<close> on one code point: the code points that CPython's
  \<open>_PyUnicode_IsWhitespace\<close> accepts, which is what \<open>str.strip()\<close> without an
  argument removes.
\<close>

definition isspace :: "nat \<Rightarrow> bool" where
  "isspace c \<longleftrightarrow>
     (0x09 \<le> c \<and> c \<le> 0x0D) \<or> (0x1C \<le> c \<and> c \<le> 0x1F) \<or> c = 0x20 \<or>
     c = 0x85 \<or> c = 0xA0 \<or> c = 0x1680 \<or> (0x2000 \<le> c \<and> c \<le> 0x200A) \<or>
     c = 0x2028 \<or> c = 0x2029 \<or> c = 0x202F \<or> c = 0x205F \<or> c = 0x3000"

definition lstrip :: "pystr \<Rightarrow> pystr" where
  "lstrip s = dropWhile isspace s"

definition rstrip :: "pystr \<Rightarrow> pystr" where
  "rstrip s = rev (dropWhile isspace (rev s))"

text \<open>\<open>s.strip()\<close>: whitespace is removed from the left end, then from the right end.\<close>

definition strip :: "pystr \<Rightarrow> pystr" where
  "strip s = rstrip (lstrip s)"

text \<open>\<open>s.replace(a, b)\<close> for one-character \<open>a\<close> and \<open>b\<close>.\<close>

definition replace :: "nat \<Rightarrow> nat \<Rightarrow> pystr \<Rightarrow> pystr" where
  "replace a b s = map (\<lambda>c. if c = a then b else c) s"

text \<open>
  \<open>s.split(sep)\<close> for a one-character separator: the pieces between the separators,
  one more piece than there are separators, so that the empty string gives one empty piece.
\<close>

fun split :: "nat \<Rightarrow> pystr \<Rightarrow> pystr list" where
  "split sep [] = [[]]"
| "split sep (c # cs) =
     (if c = sep then [] # split sep cs
      else (case split sep cs of [] \<Rightarrow> [[c]] | p # ps \<Rightarrow> (c # p) # ps))"

text \<open>\<open>sep.join(xs)\<close> for a one-character separator.\<close>

fun join :: "nat \<Rightarrow> pystr list \<Rightarrow> pystr" where
  "join sep [] = []"
| "join sep [x] = x"
| "join sep (x # y # ys) = x @ sep # join sep (y # ys)"

section \<open>Label parser\<close>

text \<open>
  \<^verbatim>\<open>
  def parse_labels(raw: str) -> List[str]:
      parts = [p.strip() for p in raw.replace("\n", ",").split(",")]
      return [p for p in parts if p]
  \<close>
  \<open>pieces\<close> is the list the first comprehension runs over.
\<close>

definition pieces :: "pystr \<Rightarrow> pystr list" where
  "pieces raw = split comma (replace newline comma raw)"

definition parse_labels :: "pystr \<Rightarrow> pystr list" where
  "parse_labels raw =
     (let parts = map strip (pieces raw) in filter (\<lambda>p. p \<noteq> []) parts)"

section \<open>Options, request and result\<close>

text \<open>
  The three sidebar widgets and the values they start with:
  \<^verbatim>\<open>
  multi_label = st.sidebar.toggle("Multi-label (...)", value=True)
  hypothesis_template = st.sidebar.text_input("Template ...", value="Este texto trata sobre {}.", ...)
  sort_desc = st.sidebar.toggle("Ordenar desc por puntaje", value=True)
  \<close>
\<close>

record options =
  multi_label :: bool
  hypothesis_template :: pystr
  sort_desc :: bool

definition default_options :: options where
  "default_options =
     \<lparr>multi_label = True,
      hypothesis_template = pystr ''Este texto trata sobre {}.'',
      sort_desc = True\<rparr>"

text \<open>The keyword arguments of the call \<open>clf(sequences=..., candidate_labels=..., ...)\<close>.\<close>

record request =
  sequences :: pystr
  candidate_labels :: "pystr list"
  req_multi_label :: bool
  req_hypothesis_template :: pystr

text \<open>
  A Python float: a finite number, one of the two infinities, or NaN. \<open>float_lt a b\<close> is
  Python's \<open>a < b\<close> and \<open>float_ge a b\<close> is \<open>a >= b\<close>: both are false as soon as one
  side is NaN, so that NaN is neither below, nor above, nor level with any float.
\<close>

datatype pyfloat = Float real | PosInf | NegInf | NaN

fun float_lt :: "pyfloat \<Rightarrow> pyfloat \<Rightarrow> bool" where
  "float_lt NaN b = False"
| "float_lt a NaN = False"
| "float_lt (Float x) (Float y) = (x < y)"
| "float_lt (Float x) PosInf = True"
| "float_lt (Float x) NegInf = False"
| "float_lt PosInf b = False"
| "float_lt NegInf NegInf = False"
| "float_lt NegInf b = True"

fun float_ge :: "pyfloat \<Rightarrow> pyfloat \<Rightarrow> bool" where
  "float_ge NaN b = False"
| "float_ge a NaN = False"
| "float_ge a b = (\<not> float_lt a b)"

text \<open>
  The dictionary the pipeline returns, read at its keys \<open>"labels"\<close> and \<open>"scores"\<close>.
  Nothing in the program checks the two lists: they may differ in length, be empty, and a
  score may be any float.
\<close>

record result =
  labels :: "pystr list"
  scores :: "pyfloat list"

text \<open>
  What a call can raise. \<open>Exception d\<close> is an instance of Python's class \<open>Exception\<close>,
  which the clause \<open>except Exception as e\<close> catches. \<open>BaseException d\<close> is an instance
  of \<open>BaseException\<close> that is not one of \<open>Exception\<close> (\<open>SystemExit\<close>,
  \<open>KeyboardInterrupt\<close>, \<open>GeneratorExit\<close>, a class of one's own that derives from
  \<open>BaseException\<close>), which that clause lets through. \<open>str\<close> is \<open>str(e)\<close>, the text
  that \<open>{e}\<close> puts into the f-string.
\<close>

datatype py_exception =
  is_Exception: Exception (str: pystr)
| BaseException (str: pystr)

section \<open>Result shaping\<close>

text \<open>What stops the script with an uncaught exception after the model has answered.\<close>

datatype crash =
  Uncaught py_exception
| Unpack_ValueError
| DataFrame_ValueError
| Format_Error py_exception

text \<open>
  \<open>sorted(xs, key=key, reverse=reverse)\<close> for float keys. Python's sort compares keys
  with \<open><\<close> only, it is stable, and it keeps equal elements in their original order under
  \<open>reverse=True\<close> too: CPython reverses the list, sorts it ascending with a stable sort
  and reverses the outcome. The stable sort is an insertion sort here: an element goes
  behind the elements whose key is less than its own.

  When no key is NaN, \<open><\<close> orders the keys and every stable sort gives this same list.
  When a key is NaN, \<open><\<close> is no order any more; Python then promises a permutation of
  the input and no more, and the order CPython gives depends on the comparisons its merge
  sort happens to make. The list below is then CPython's on the inputs evaluated in this
  theory (lists that CPython finds to be one run already and leaves as they are), and is
  not meant to be CPython's on every such input.
\<close>

fun insort_lt :: "('a \<Rightarrow> pyfloat) \<Rightarrow> 'a \<Rightarrow> 'a list \<Rightarrow> 'a list" where
  "insort_lt key x [] = [x]"
| "insort_lt key x (y # ys) =
     (if float_lt (key y) (key x) then y # insort_lt key x ys else x # y # ys)"

definition sort_lt :: "('a \<Rightarrow> pyfloat) \<Rightarrow> 'a list \<Rightarrow> 'a list" where
  "sort_lt key xs = foldr (insort_lt key) xs []"

definition sorted_py :: "('a \<Rightarrow> pyfloat) \<Rightarrow> bool \<Rightarrow> 'a list \<Rightarrow> 'a list" where
  "sorted_py key reverse xs =
     (if reverse then rev (sort_lt key (rev xs)) else sort_lt key xs)"

text \<open>
  \<open>out_labels, out_scores = zip(*pairs)\<close>: \<open>zip\<close> of no argument yields nothing, and
  unpacking nothing into two names raises ValueError; one pair or more gives the tuple of
  the first components and the tuple of the second ones.
\<close>

definition unzip_pairs :: "('a \<times> 'b) list \<Rightarrow> crash + ('a list \<times> 'b list)" where
  "unzip_pairs pairs =
     (if pairs = [] then Inl Unpack_ValueError else Inr (map fst pairs, map snd pairs))"

text \<open>
  \<^verbatim>\<open>
  def to_df(labels: List[str], scores: List[float]) -> pd.DataFrame:
      return pd.DataFrame({"Etiqueta": labels, "Puntaje": scores})
  \<close>
  pandas refuses columns of different lengths with a ValueError.
\<close>

record dataframe =
  Etiqueta :: "pystr list"
  Puntaje :: "pyfloat list"

definition to_df :: "pystr list \<Rightarrow> pyfloat list \<Rightarrow> crash + dataframe" where
  "to_df ls ss =
     (if length ls = length ss then Inr \<lparr>Etiqueta = ls, Puntaje = ss\<rparr>
      else Inl DataFrame_ValueError)"

text \<open>Row \<open>i\<close> of the table is the pair of the entries at index \<open>i\<close> of its two columns.\<close>

definition rows :: "dataframe \<Rightarrow> (pystr \<times> pyfloat) list" where
  "rows df = zip (Etiqueta df) (Puntaje df)"

text \<open>
  The shaping step of the button handler, from the model's answer to the table:
  \<^verbatim>\<open>
  out_labels = result["labels"]
  out_scores = result["scores"]
  if sort_desc:
      pairs = sorted(zip(out_labels, out_scores), key=lambda x: x[1], reverse=True)
      out_labels, out_scores = zip(*pairs)
  df = to_df(list(out_labels), list(out_scores))
  \<close>
\<close>

definition shape :: "result \<Rightarrow> bool \<Rightarrow> crash + dataframe" where
  "shape res sd =
     (let out_labels = labels res; out_scores = scores res in
      if sd then
        (let pairs = sorted_py snd True (zip out_labels out_scores) in
         case unzip_pairs pairs of
           Inl err \<Rightarrow> Inl err
         | Inr (sorted_labels, sorted_scores) \<Rightarrow> to_df sorted_labels sorted_scores)
      else to_df out_labels out_scores)"

section \<open>The button handler\<close>

text \<open>What one run of the handler puts on the page, in the order of the calls.\<close>

datatype ui_event =
  St_warning pystr
| St_spinner pystr
| St_error pystr
| St_subheader pystr
| St_dataframe dataframe
| St_bar_chart dataframe
| St_info pystr


text \<open>
  How the run ends: it reaches the end of the handler, \<open>st.stop()\<close> ends it, or an
  exception that nothing in the script catches leaves the script and ends it.
\<close>

datatype status = Completed | Stopped | Crashed crash

text \<open>
  The model is a capability from outside the program. It is a parameter here: a function
  of the request and of a state \<open>'m\<close> of its own (a mock's call counter, say) that
  returns the raised exception or the answer, and the state after the call. The state the
  handler hands back is the one after all the calls it made.
\<close>

record 'm outcome =
  events :: "ui_event list"
  status :: status
  model :: 'm

definition msg_no_text :: pystr where
  "msg_no_text = pystr ''Por favor ingresa un texto.''"

definition msg_no_labels :: pystr where
  "msg_no_labels = pystr ''Por favor ingresa al menos una etiqueta.''"

definition msg_spinner :: pystr where
  "msg_spinner = pystr ''Clasificando...''"

definition msg_error :: "py_exception \<Rightarrow> pystr" where
  "msg_error e = pystr ''Ocurri'' @ [0xF3] @ pystr '' un error al clasificar: '' @ str e"

definition msg_results :: pystr where
  "msg_results = pystr ''Resultados''"

definition msg_chart :: pystr where
  "msg_chart = pystr ''Gr'' @ [0xE1] @ pystr ''fico de barras''"

definition msg_info :: "pystr \<Rightarrow> pystr" where
  "msg_info hypothesis =
     [0x2139, 0xFE0F] @ pystr '' **Zero-Shot (NLI)**: El modelo eval'' @ [0xFA]
     @ pystr ''a si el texto implica hip'' @ [0xF3] @ pystr ''tesis del tipo ''
     @ [0x201C] @ hypothesis @ [0x201D] @ pystr ''.'' @ [newline]
     @ pystr ''Activa *Multi-label* si el texto puede pertenecer a varias categor''
     @ [0xED] @ pystr ''as a la vez.''"

text \<open>
  The body of \<open>if st.button(...)\<close>. \<open>clf\<close> is the model; \<open>fmt t a\<close> is Python's
  \<open>t.format(a)\<close>, which raises on a malformed template, and is a parameter as well.
  The \<open>except\<close> clause names the class \<open>Exception\<close>: what the model raises outside
  that class passes it, and nothing else in the script catches it.
  \<^verbatim>\<open>
  labels = parse_labels(raw_labels)
  if not texto.strip():
      st.warning("Por favor ingresa un texto."); st.stop()
  if not labels:
      st.warning("Por favor ingresa al menos una etiqueta."); st.stop()
  with st.spinner("Clasificando..."):
      try:
          result = clf(sequences=texto, candidate_labels=labels,
                       multi_label=multi_label, hypothesis_template=hypothesis_template)
      except Exception as e:
          st.error(f"Ocurrio un error al clasificar: {e}"); st.stop()
  ... shaping ...
  st.subheader("Resultados"); st.dataframe(df, ...)
  st.subheader("Grafico de barras"); st.bar_chart(df.set_index("Etiqueta"))
  st.info(... hypothesis_template.format('etiqueta') ...)
  \<close>
\<close>

definition on_classify ::
  "(request \<Rightarrow> 'm \<Rightarrow> (py_exception + result) \<times> 'm) \<Rightarrow> (pystr \<Rightarrow> pystr \<Rightarrow> py_exception + pystr)
   \<Rightarrow> options \<Rightarrow> pystr \<Rightarrow> pystr \<Rightarrow> 'm \<Rightarrow> 'm outcome" where
  "on_classify clf fmt opts texto raw_labels m =
     (let parsed = parse_labels raw_labels in
      if strip texto = [] then
        \<lparr>events = [St_warning msg_no_text], status = Stopped, model = m\<rparr>
      else if parsed = [] then
        \<lparr>events = [St_warning msg_no_labels], status = Stopped, model = m\<rparr>
      else
        (case clf \<lparr>sequences = texto, candidate_labels = parsed,
                   req_multi_label = multi_label opts,
                   req_hypothesis_template = hypothesis_template opts\<rparr> m of
           (Inl e, m') \<Rightarrow>
             (if is_Exception e then
                \<lparr>events = [St_spinner msg_spinner, St_error (msg_error e)],
                 status = Stopped, model = m'\<rparr>
              else
                \<lparr>events = [St_spinner msg_spinner], status = Crashed (Uncaught e),
                 model = m'\<rparr>)
         | (Inr res, m') \<Rightarrow>
             (case shape res (sort_desc opts) of
                Inl err \<Rightarrow>
                  \<lparr>events = [St_spinner msg_spinner], status = Crashed err, model = m'\<rparr>
              | Inr df \<Rightarrow>
                  (let shown = [St_spinner msg_spinner,
                                St_subheader msg_results, St_dataframe df,
                                St_subheader msg_chart, St_bar_chart df] in
                   case fmt (hypothesis_template opts) (pystr ''etiqueta'') of
                     Inl e \<Rightarrow>
                       \<lparr>events = shown, status = Crashed (Format_Error e), model = m'\<rparr>
                   | Inr hypothesis \<Rightarrow>
                       \<lparr>events = shown @ [St_info (msg_info hypothesis)],
                        status = Completed, model = m'\<rparr>))))"

section \<open>Stand-ins for the model\<close>

text \<open>
  Three mock models whose state counts their calls: one answers with the candidate labels
  in their order, each with score 1; one raises an instance of \<open>Exception\<close>; one raises
  \<open>SystemExit\<close>, which is not an instance of \<open>Exception\<close>. \<open>plain_format\<close> is a
  \<open>format\<close> that raises nothing.
\<close>

definition echo_model :: "request \<Rightarrow> nat \<Rightarrow> (py_exception + result) \<times> nat" where
  "echo_model req n =
     (Inr \<lparr>labels = candidate_labels req,
           scores = map (\<lambda>l. Float 1) (candidate_labels req)\<rparr>,
      Suc n)"



definition plain_format :: "pystr \<Rightarrow> pystr \<Rightarrow> py_exception + pystr" where
  "plain_format t a = Inr t"

section \<open>Properties of the label parser\<close>

subsection \<open>Splitting, joining and trimming\<close>

lemma split_not_Nil: "split sep s \<noteq> []"
  by (induction s) (auto split: list.splits)

lemma split_no_sep: "p \<in> set (split sep s) \<Longrightarrow> sep \<notin> set p"
  by (induction s arbitrary: p) (auto split: if_splits list.splits)

lemma split_subset: "p \<in> set (split sep s) \<Longrightarrow> set p \<subseteq> set s"
proof (induction s arbitrary: p)
  case Nil
  then show ?case by simp
next
  case (Cons c cs)
  obtain q qs where q: "split sep cs = q # qs"
    using split_not_Nil [of sep cs] by (cases "split sep cs") auto
  have "set q \<subseteq> set cs" "\<And>r. r \<in> set qs \<Longrightarrow> set r \<subseteq> set cs"
    using Cons.IH q by simp_all
  then show ?case
    using Cons.prems q by (auto split: if_splits)
qed

lemma split_without_sep: "sep \<notin> set s \<Longrightarrow> split sep s = [s]"
  by (induction s) auto

lemma split_append_sep: "split sep (a @ sep # b) = split sep a @ split sep b"
  using split_not_Nil [of sep] by (induction a) (auto split: list.splits)

lemma split_join:
  "xs \<noteq> [] \<Longrightarrow> (\<And>x. x \<in> set xs \<Longrightarrow> sep \<notin> set x) \<Longrightarrow> split sep (join sep xs) = xs"
proof (induction sep xs rule: join.induct)
  case (1 sep)
  then show ?case by simp
next
  case (2 sep x)
  then show ?case by (simp add: split_without_sep)
next
  case (3 sep x y ys)
  have "split sep (join sep (y # ys)) = y # ys"
    using 3 by simp
  moreover have "split sep x = [x]"
    using 3(3) by (simp add: split_without_sep)
  ultimately show ?case
    by (simp add: split_append_sep)
qed

lemma set_join: "set (join sep xs) \<subseteq> insert sep (\<Union>x\<in>set xs. set x)"
  by (induction sep xs rule: join.induct) auto

lemma dropWhile_keeps_last:
  "xs \<noteq> [] \<Longrightarrow> \<not> P (last xs) \<Longrightarrow> dropWhile P xs \<noteq> [] \<and> last (dropWhile P xs) = last xs"
  by (induction xs) (auto split: if_splits)

lemma strip_ends:
  assumes "strip s \<noteq> []"
  shows "\<not> isspace (hd (strip s)) \<and> \<not> isspace (last (strip s))"
proof -
  let ?u = "dropWhile isspace s"
  let ?r = "dropWhile isspace (rev ?u)"
  have s: "strip s = rev ?r"
    by (simp add: strip_def lstrip_def rstrip_def)
  with assms have r: "?r \<noteq> []" by simp
  have u: "?u \<noteq> []"
  proof
    assume e: "?u = []"
    have "?r = []" unfolding e by simp
    with r show False by contradiction
  qed
  have hu: "\<not> isspace (hd ?u)"
    using u by (rule hd_dropWhile)
  have "rev ?u \<noteq> []" "\<not> isspace (last (rev ?u))"
    using u hu by (simp_all add: last_rev)
  then have "last ?r = last (rev ?u)"
    using dropWhile_keeps_last by blast
  then have "hd (rev ?r) = hd ?u"
    using r u by (simp add: hd_rev last_rev)
  moreover have "\<not> isspace (hd ?r)"
    using r by (rule hd_dropWhile)
  then have "\<not> isspace (last (rev ?r))"
    using r by (simp add: last_rev)
  ultimately show ?thesis
    using hu s by simp
qed

lemma strip_fixed:
  assumes "s = [] \<or> (\<not> isspace (hd s) \<and> \<not> isspace (last s))"
  shows "strip s = s"
proof (cases "s = []")
  case True
  then show ?thesis by (simp add: strip_def lstrip_def rstrip_def)
next
  case False
  with assms have h: "\<not> isspace (hd s)" and l: "\<not> isspace (last s)" by auto
  have "dropWhile isspace s = s"
    using False h by (cases s) auto
  moreover have "dropWhile isspace (rev s) = rev s"
    using False l by (cases "rev s") (auto simp: last_rev [symmetric] hd_rev)
  ultimately show ?thesis
    by (simp add: strip_def lstrip_def rstrip_def)
qed

lemma strip_strip: "strip (strip s) = strip s"
  using strip_ends [of s] by (intro strip_fixed) blast

lemma set_strip: "set (strip s) \<subseteq> set s"
proof -
  have "set (strip s) \<subseteq> set (dropWhile isspace s)"
    unfolding strip_def lstrip_def rstrip_def
    using set_dropWhileD [of _ isspace "rev (dropWhile isspace s)"] by auto
  also have "\<dots> \<subseteq> set s"
    using set_dropWhileD [of _ isspace s] by auto
  finally show ?thesis .
qed

lemma replace_removes: "a \<noteq> b \<Longrightarrow> a \<notin> set (replace a b s)"
  by (auto simp: replace_def)

lemma replace_absent: "a \<notin> set s \<Longrightarrow> replace a b s = s"
  by (induction s) (auto simp: replace_def)

lemma replace_append: "replace a b (s @ t) = replace a b s @ replace a b t"
  by (simp add: replace_def)

lemma pieces_append_comma: "pieces (a @ comma # b) = pieces a @ pieces b"
  by (simp add: pieces_def replace_def split_append_sep comma_def newline_def)

lemma pieces_append_newline: "pieces (a @ newline # b) = pieces a @ pieces b"
  by (simp add: pieces_def replace_def split_append_sep)

subsection \<open>The labels\<close>

lemma comma_neq_newline: "newline \<noteq> comma"
  by (simp add: comma_def newline_def)

lemma count_list_filter:
  "count_list (filter P xs) l = (if P l then count_list xs l else 0)"
  by (induction xs) auto

lemma parse_labels_member:
  "l \<in> set (parse_labels raw) \<longleftrightarrow> l \<noteq> [] \<and> (\<exists>p\<in>set (pieces raw). l = strip p)"
  by (auto simp: parse_labels_def)

lemma piece_chars:
  assumes "p \<in> set (pieces raw)"
  shows "comma \<notin> set p \<and> newline \<notin> set p"
proof -
  have "comma \<notin> set p"
    using assms by (simp add: pieces_def split_no_sep)
  moreover have "set p \<subseteq> set (replace newline comma raw)"
    using assms by (simp add: pieces_def split_subset)
  then have "newline \<notin> set p"
    using replace_removes [OF comma_neq_newline, of raw] by blast
  ultimately show ?thesis ..
qed

lemma label_chars:
  assumes "l \<in> set (parse_labels raw)"
  shows "comma \<notin> set l \<and> newline \<notin> set l"
proof -
  obtain p where p: "p \<in> set (pieces raw)" and l: "l = strip p"
    using assms by (auto simp: parse_labels_member)
  show ?thesis
    using piece_chars [OF p] set_strip [of p] l by blast
qed

lemma label_trimmed:
  assumes "l \<in> set (parse_labels raw)"
  shows "l \<noteq> [] \<and> \<not> isspace (hd l) \<and> \<not> isspace (last l) \<and> strip l = l"
proof -
  obtain p where l: "l = strip p" and n: "l \<noteq> []"
    using assms by (auto simp: parse_labels_member)
  show ?thesis
    using strip_ends [of p] strip_strip [of p] l n by simp
qed

lemma parse_labels_join:
  assumes "\<And>l. l \<in> set ls \<Longrightarrow> l \<noteq> [] \<and> strip l = l \<and> comma \<notin> set l \<and> newline \<notin> set l"
  shows "parse_labels (join comma ls) = ls"
proof (cases "ls = []")
  case True
  then show ?thesis
    by (simp add: parse_labels_def pieces_def replace_def strip_def lstrip_def rstrip_def)
next
  case False
  have "newline \<notin> set (join comma ls)"
    using set_join [of comma ls] assms comma_neq_newline by auto
  then have "pieces (join comma ls) = split comma (join comma ls)"
    by (simp add: pieces_def replace_absent)
  also have "\<dots> = ls"
    using False assms by (intro split_join) auto
  finally have "parse_labels (join comma ls) = filter (\<lambda>p. p \<noteq> []) (map strip ls)"
    by (simp add: parse_labels_def)
  also have "map strip ls = ls"
    using assms by (intro map_idI) simp
  also have "filter (\<lambda>p. p \<noteq> []) ls = ls"
    using assms by (intro filter_True) simp
  finally show ?thesis .
qed

text \<open>
  Claim C4. Every element of \<open>parse_labels raw\<close> is a non-empty string that neither
  starts nor ends with whitespace, and it is the trimmed form of one of the pieces that
  splitting at the commas gives once every newline of \<open>raw\<close> has become a comma.
\<close>

theorem parse_labels_trimmed:
  assumes "l \<in> set (parse_labels raw)"
  shows "l \<noteq> [] \<and> \<not> isspace (hd l) \<and> \<not> isspace (last l)
    \<and> (\<exists>p\<in>set (split comma (replace newline comma raw)). l = strip p)"
  using label_trimmed [OF assms] assms
  by (simp add: parse_labels_member pieces_def)

theorem parse_labels_trimmed_witness:
  "pystr ''b'' \<in> set (parse_labels (pystr ''a, b ''))
   \<and> pystr ''b'' \<noteq> [] \<and> \<not> isspace (hd (pystr ''b'')) \<and> \<not> isspace (last (pystr ''b''))
   \<and> (\<exists>p\<in>set (split comma (replace newline comma (pystr ''a, b ''))). pystr ''b'' = strip p)"
proof -
  have m: "pystr ''b'' \<in> set (parse_labels (pystr ''a, b ''))"
    by (simp add: parse_labels_def pieces_def replace_def strip_def lstrip_def rstrip_def
        isspace_def pystr_def comma_def newline_def)
  show ?thesis
    using m parse_labels_trimmed [OF m] by simp
qed

text \<open>
  Claim C6. \<open>parse_labels\<close> keeps the input order and removes no duplicate: its
  output is a subsequence of the trimmed pieces, a non-empty label is in the output as
  many times as it is among the trimmed pieces, and the labels of a text before a separator
  come before the labels of the text after it.
\<close>

theorem parse_labels_keeps_order_and_duplicates:
  "subseq (parse_labels raw) (map strip (pieces raw))
   \<and> (l \<noteq> [] \<longrightarrow> count_list (parse_labels raw) l = count_list (map strip (pieces raw)) l)
   \<and> parse_labels (a @ comma # b) = parse_labels a @ parse_labels b
   \<and> parse_labels (a @ newline # b) = parse_labels a @ parse_labels b"
  by (simp add: parse_labels_def count_list_filter pieces_append_comma pieces_append_newline)

theorem parse_labels_keeps_order_and_duplicates_witness:
  "pystr ''x'' \<noteq> []
   \<and> parse_labels (pystr ''x, y,x'') = [pystr ''x'', pystr ''y'', pystr ''x'']
   \<and> count_list (parse_labels (pystr ''x, y,x'')) (pystr ''x'') = 2"
proof -
  have n: "pystr ''x'' \<noteq> []"
    by (simp add: pystr_def)
  have c: "count_list (map strip (pieces (pystr ''x, y,x''))) (pystr ''x'') = 2"
    by (simp add: pieces_def replace_def strip_def lstrip_def rstrip_def
        isspace_def pystr_def comma_def newline_def)
  have p: "parse_labels (pystr ''x, y,x'') = [pystr ''x'', pystr ''y'', pystr ''x'']"
    by (simp add: parse_labels_def pieces_def replace_def strip_def lstrip_def rstrip_def
        isspace_def pystr_def comma_def newline_def)
  have k: "count_list (parse_labels (pystr ''x, y,x'')) (pystr ''x'') = 2"
    using n c parse_labels_keeps_order_and_duplicates [of "pystr ''x, y,x''" "pystr ''x''"]
    by simp
  show ?thesis
    using n p k by simp
qed

text \<open>
  Claim C9. No element of \<open>parse_labels raw\<close> holds a comma or a newline, and joining
  the returned labels with commas and parsing the outcome gives the same labels again.
\<close>

theorem parse_labels_reparse:
  "(l \<in> set (parse_labels raw) \<longrightarrow> comma \<notin> set l \<and> newline \<notin> set l)
   \<and> parse_labels (join comma (parse_labels raw)) = parse_labels raw"
proof
  show "l \<in> set (parse_labels raw) \<longrightarrow> comma \<notin> set l \<and> newline \<notin> set l"
    using label_chars by blast
  show "parse_labels (join comma (parse_labels raw)) = parse_labels raw"
    using label_chars label_trimmed by (intro parse_labels_join) blast
qed

theorem parse_labels_reparse_witness:
  "pystr ''b'' \<in> set (parse_labels (pystr ''a, b ''))
   \<and> comma \<notin> set (pystr ''b'') \<and> newline \<notin> set (pystr ''b'')
   \<and> parse_labels (join comma (parse_labels (pystr ''a, b ''))) = parse_labels (pystr ''a, b '')"
proof -
  have m: "pystr ''b'' \<in> set (parse_labels (pystr ''a, b ''))"
    by (simp add: parse_labels_def pieces_def replace_def strip_def lstrip_def rstrip_def
        isspace_def pystr_def comma_def newline_def)
  show ?thesis
    using m parse_labels_reparse [of "pystr ''b''" "pystr ''a, b ''"] by simp
qed


text \<open>
  Claim C5. \<open>parse_labels("a, b\nc,, d ")\<close> is exactly \<open>["a", "b", "c", "d"]\<close>, and
  \<open>parse_labels("")\<close> is the empty list.
\<close>

theorem parse_labels_examples:
  "parse_labels (pystr ''a, b'' @ [newline] @ pystr ''c,, d '') =
     [pystr ''a'', pystr ''b'', pystr ''c'', pystr ''d'']
   \<and> parse_labels (pystr '''') = []"
  by (simp add: parse_labels_def pieces_def replace_def strip_def lstrip_def rstrip_def
      isspace_def pystr_def comma_def newline_def)

section \<open>Properties of the result shaping\<close>

subsection \<open>The order of floats\<close>

lemma float_lt_irrefl: "\<not> float_lt a a"
  by (cases a) simp_all

lemma float_lt_asym: "float_lt a b \<Longrightarrow> \<not> float_lt b a"
  by (cases a; cases b) simp_all

lemma float_not_lt_trans:
  "a \<noteq> NaN \<Longrightarrow> b \<noteq> NaN \<Longrightarrow> c \<noteq> NaN \<Longrightarrow>
   \<not> float_lt b a \<Longrightarrow> \<not> float_lt c b \<Longrightarrow> \<not> float_lt c a"
  by (cases a; cases b; cases c) simp_all

lemma float_ge_iff: "a \<noteq> NaN \<Longrightarrow> b \<noteq> NaN \<Longrightarrow> float_ge a b \<longleftrightarrow> \<not> float_lt a b"
  by (cases a; cases b) simp_all

subsection \<open>The sort\<close>

lemma set_insort_lt: "set (insort_lt key x ys) = insert x (set ys)"
  by (induction ys) auto

lemma mset_insort_lt: "mset (insort_lt key x ys) = add_mset x (mset ys)"
  by (induction ys) auto

lemma mset_sort_lt: "mset (sort_lt key xs) = mset xs"
  by (induction xs) (simp_all add: sort_lt_def mset_insort_lt)

lemma set_sort_lt: "set (sort_lt key xs) = set xs"
  using mset_sort_lt [of key xs] by (metis set_mset_mset)

lemma filter_insort_lt:
  "filter (\<lambda>y. key y = k) (insort_lt key x ys) = filter (\<lambda>y. key y = k) (x # ys)"
proof (induction ys)
  case Nil
  then show ?case by simp
next
  case (Cons y ys)
  show ?case
  proof (cases "float_lt (key y) (key x)")
    case True
    then have "key y \<noteq> key x"
      using float_lt_irrefl by metis
    then show ?thesis
      using True Cons.IH by auto
  next
    case False
    then show ?thesis by simp
  qed
qed

lemma filter_sort_lt:
  "filter (\<lambda>y. key y = k) (sort_lt key xs) = filter (\<lambda>y. key y = k) xs"
proof (induction xs)
  case Nil
  then show ?case by (simp add: sort_lt_def)
next
  case (Cons x xs)
  have "filter (\<lambda>y. key y = k) (sort_lt key (x # xs))
      = filter (\<lambda>y. key y = k) (x # sort_lt key xs)"
    by (simp only: sort_lt_def foldr.simps o_apply filter_insort_lt)
  then show ?case
    using Cons.IH by simp
qed

lemma sorted_insort_lt:
  assumes "key x \<noteq> NaN" and "\<And>y. y \<in> set ys \<Longrightarrow> key y \<noteq> NaN"
    and "sorted_wrt (\<lambda>a b. \<not> float_lt (key b) (key a)) ys"
  shows "sorted_wrt (\<lambda>a b. \<not> float_lt (key b) (key a)) (insort_lt key x ys)"
  using assms(2,3)
proof (induction ys)
  case Nil
  then show ?case by simp
next
  case (Cons y ys)
  show ?case
  proof (cases "float_lt (key y) (key x)")
    case True
    have "sorted_wrt (\<lambda>a b. \<not> float_lt (key b) (key a)) (insort_lt key x ys)"
      using Cons by simp
    moreover have "\<not> float_lt (key x) (key y)"
      using True by (rule float_lt_asym)
    moreover have "\<And>z. z \<in> set ys \<Longrightarrow> \<not> float_lt (key z) (key y)"
      using Cons.prems(2) by simp
    ultimately show ?thesis
      using True by (auto simp: set_insort_lt)
  next
    case False
    have "\<not> float_lt (key z) (key x)" if "z \<in> set ys" for z
    proof -
      have "\<not> float_lt (key z) (key y)"
        using that Cons.prems(2) by simp
      moreover have "key y \<noteq> NaN" "key z \<noteq> NaN"
        using that Cons.prems(1) by simp_all
      ultimately show ?thesis
        using False assms(1) float_not_lt_trans by blast
    qed
    then show ?thesis
      using False Cons.prems(2) by simp
  qed
qed

lemma sorted_sort_lt:
  assumes "\<And>x. x \<in> set xs \<Longrightarrow> key x \<noteq> NaN"
  shows "sorted_wrt (\<lambda>a b. \<not> float_lt (key b) (key a)) (sort_lt key xs)"
  using assms
proof (induction xs)
  case Nil
  then show ?case by (simp add: sort_lt_def)
next
  case (Cons x xs)
  have "sorted_wrt (\<lambda>a b. \<not> float_lt (key b) (key a)) (insort_lt key x (sort_lt key xs))"
    using Cons by (intro sorted_insort_lt) (simp_all add: set_sort_lt)
  then show ?case
    by (simp add: sort_lt_def)
qed

lemma sorted_py_desc_mset: "mset (sorted_py key True xs) = mset xs"
  by (simp add: sorted_py_def mset_sort_lt)

lemma sorted_py_desc_nonincreasing:
  assumes "\<And>x. x \<in> set xs \<Longrightarrow> key x \<noteq> NaN"
  shows "sorted_wrt float_ge (map key (sorted_py key True xs))"
proof -
  let ?out = "sorted_py key True xs"
  have "sorted_wrt (\<lambda>a b. \<not> float_lt (key b) (key a)) (sort_lt key (rev xs))"
    using assms by (intro sorted_sort_lt) simp
  then have a: "sorted_wrt (\<lambda>a b. \<not> float_lt (key a) (key b)) ?out"
    by (simp add: sorted_py_def sorted_wrt_rev)
  have b: "set ?out = set xs"
    by (simp add: sorted_py_def set_sort_lt)
  have "sorted_wrt (\<lambda>a b. float_ge (key a) (key b)) ?out"
  proof (rule sorted_wrt_mono_rel [OF _ a])
    fix x y assume "x \<in> set ?out" "y \<in> set ?out" "\<not> float_lt (key x) (key y)"
    then show "float_ge (key x) (key y)"
      using assms b by (simp add: float_ge_iff)
  qed
  then show ?thesis
    by (simp only: sorted_wrt_map)
qed

lemma sorted_py_desc_stable:
  "filter (\<lambda>x. key x = k) (sorted_py key True xs) = filter (\<lambda>x. key x = k) xs"
proof -
  have "filter (\<lambda>x. key x = k) (sorted_py key True xs)
      = rev (filter (\<lambda>x. key x = k) (sort_lt key (rev xs)))"
    by (simp add: sorted_py_def rev_filter)
  also have "\<dots> = rev (filter (\<lambda>x. key x = k) (rev xs))"
    by (simp only: filter_sort_lt)
  also have "\<dots> = filter (\<lambda>x. key x = k) xs"
    by (simp add: rev_filter)
  finally show ?thesis .
qed

lemma sorted_py_Nil_iff: "sorted_py key rv xs = [] \<longleftrightarrow> xs = []"
proof -
  have "mset (sorted_py key rv xs) = mset xs"
    by (simp add: sorted_py_def mset_sort_lt)
  then show ?thesis
    by (metis mset_zero_iff)
qed

subsection \<open>The table\<close>

lemma shape_sorted_empty:
  assumes "zip ls ss = []"
  shows "shape \<lparr>labels = ls, scores = ss\<rparr> True = Inl Unpack_ValueError"
proof -
  have "sorted_py snd True (zip ls ss) = []"
    by (simp only: assms sorted_py_Nil_iff)
  then show ?thesis
    by (simp add: shape_def unzip_pairs_def Let_def)
qed

lemma shape_sorted_nonempty:
  assumes "zip ls ss \<noteq> []"
  shows "shape \<lparr>labels = ls, scores = ss\<rparr> True =
     Inr \<lparr>Etiqueta = map fst (sorted_py snd True (zip ls ss)),
          Puntaje = map snd (sorted_py snd True (zip ls ss))\<rparr>"
proof -
  have "sorted_py snd True (zip ls ss) \<noteq> []"
    using assms by (simp add: sorted_py_Nil_iff)
  then show ?thesis
    by (simp add: shape_def unzip_pairs_def to_df_def Let_def)
qed

lemma rows_of_pairs: "rows \<lparr>Etiqueta = map fst ps, Puntaje = map snd ps\<rparr> = ps"
  by (simp add: rows_def zip_map_fst_snd)

text \<open>
  Claim C1, amended. For every non-empty list of labels with as many scores, none of them
  NaN, shaping with \<open>sort_desc\<close> true gives a table: its score column is non-increasing
  (each score is \<open>>=\<close> every later one), the rows of each score are the input pairs of
  that score in their input order, and its rows are a permutation of the input pairs.
\<close>

theorem shape_sorted_desc:
  assumes "length ls = length ss" and "ls \<noteq> []" and "NaN \<notin> set ss"
  shows "\<exists>df. shape \<lparr>labels = ls, scores = ss\<rparr> True = Inr df
     \<and> sorted_wrt float_ge (Puntaje df)
     \<and> (\<forall>k. filter (\<lambda>p. snd p = k) (rows df) = filter (\<lambda>p. snd p = k) (zip ls ss))
     \<and> mset (rows df) = mset (zip ls ss)"
proof -
  let ?ps = "sorted_py snd True (zip ls ss)"
  let ?df = "\<lparr>Etiqueta = map fst ?ps, Puntaje = map snd ?ps\<rparr>"
  have "zip ls ss \<noteq> []"
    using assms(1,2) by (cases ls; cases ss) auto
  then have "shape \<lparr>labels = ls, scores = ss\<rparr> True = Inr ?df"
    by (rule shape_sorted_nonempty)
  moreover have "snd p \<noteq> NaN" if "p \<in> set (zip ls ss)" for p
    using that assms(3) by (metis set_zip_rightD surjective_pairing)
  then have "sorted_wrt float_ge (Puntaje ?df)"
    using sorted_py_desc_nonincreasing [of "zip ls ss" snd] by simp
  moreover have "\<forall>k. filter (\<lambda>p. snd p = k) (rows ?df) = filter (\<lambda>p. snd p = k) (zip ls ss)"
    by (simp only: rows_of_pairs sorted_py_desc_stable) simp
  moreover have "mset (rows ?df) = mset (zip ls ss)"
    by (simp only: rows_of_pairs sorted_py_desc_mset)
  ultimately show ?thesis by blast
qed

theorem shape_sorted_desc_witness:
  "length [pystr ''a'', pystr ''b'', pystr ''c''] = length [Float (1/4), Float (1/2), Float (1/4)]
   \<and> [pystr ''a'', pystr ''b'', pystr ''c''] \<noteq> []
   \<and> NaN \<notin> set [Float (1/4), Float (1/2), Float (1/4)]
   \<and> (\<exists>df. shape \<lparr>labels = [pystr ''a'', pystr ''b'', pystr ''c''],
                   scores = [Float (1/4), Float (1/2), Float (1/4)]\<rparr> True
          = Inr df
        \<and> sorted_wrt float_ge (Puntaje df)
        \<and> (\<forall>k. filter (\<lambda>p. snd p = k) (rows df)
              = filter (\<lambda>p. snd p = k)
                  (zip [pystr ''a'', pystr ''b'', pystr ''c'']
                       [Float (1/4), Float (1/2), Float (1/4)]))
        \<and> mset (rows df)
            = mset (zip [pystr ''a'', pystr ''b'', pystr ''c'']
                        [Float (1/4), Float (1/2), Float (1/4)]))"
proof -
  have l: "length [pystr ''a'', pystr ''b'', pystr ''c'']
      = length [Float (1/4), Float (1/2), Float (1/4)]"
    by simp
  have n: "[pystr ''a'', pystr ''b'', pystr ''c''] \<noteq> []"
    by simp
  have f: "NaN \<notin> set [Float (1/4), Float (1/2), Float (1/4)]"
    by simp
  show ?thesis
    using l n f shape_sorted_desc [OF l n f] by blast
qed

text \<open>
  Claim C1 as stated, for every list of pairs, fails on a NaN score: from the scores
  0.25 and NaN the table has the score column 0.25, NaN, and a column that holds NaN beside
  another score is not non-increasing in either order, since \<open>>=\<close> is false on NaN.
\<close>

theorem shape_sorted_desc_counterexample:
  "shape \<lparr>labels = [pystr ''a'', pystr ''b''], scores = [Float (1/4), NaN]\<rparr> True
     = Inr \<lparr>Etiqueta = [pystr ''a'', pystr ''b''], Puntaje = [Float (1/4), NaN]\<rparr>
   \<and> \<not> sorted_wrt float_ge [Float (1/4), NaN]
   \<and> \<not> sorted_wrt float_ge [NaN, Float (1/4)]"
  by (simp add: shape_def unzip_pairs_def sorted_py_def sort_lt_def to_df_def)

lemma shape_ties_keep_order:
  "shape \<lparr>labels = [pystr ''a'', pystr ''b'', pystr ''c''],
          scores = [Float (1/4), Float (1/2), Float (1/4)]\<rparr> True
   = Inr \<lparr>Etiqueta = [pystr ''b'', pystr ''a'', pystr ''c''],
          Puntaje = [Float (1/2), Float (1/4), Float (1/4)]\<rparr>"
  by (simp add: shape_def unzip_pairs_def sorted_py_def sort_lt_def to_df_def)

lemma shape_nan_left_in_place:
  "shape \<lparr>labels = [pystr ''a'', pystr ''b'', pystr ''c''],
          scores = [Float (1/4), NaN, Float (1/2)]\<rparr> True
   = Inr \<lparr>Etiqueta = [pystr ''a'', pystr ''b'', pystr ''c''],
          Puntaje = [Float (1/4), NaN, Float (1/2)]\<rparr>"
  by (simp add: shape_def unzip_pairs_def sorted_py_def sort_lt_def to_df_def)

text \<open>
  Claim C7. With \<open>sort_desc\<close> false, shaping a list of labels with as many scores gives
  the table whose columns are these two lists: row \<open>i\<close> is input pair \<open>i\<close>, and there
  are as many rows as input pairs.
\<close>

theorem shape_unsorted_identity:
  assumes "length ls = length ss"
  shows "shape \<lparr>labels = ls, scores = ss\<rparr> False = Inr \<lparr>Etiqueta = ls, Puntaje = ss\<rparr>
     \<and> rows \<lparr>Etiqueta = ls, Puntaje = ss\<rparr> = zip ls ss
     \<and> length (rows \<lparr>Etiqueta = ls, Puntaje = ss\<rparr>) = length ls
     \<and> (\<forall>i<length ls. rows \<lparr>Etiqueta = ls, Puntaje = ss\<rparr> ! i = (ls ! i, ss ! i))"
  using assms by (simp add: shape_def to_df_def rows_def)

theorem shape_unsorted_identity_witness:
  "length [pystr ''a'', pystr ''b''] = length [Float (1/4), Float (1/2)]
   \<and> shape \<lparr>labels = [pystr ''a'', pystr ''b''], scores = [Float (1/4), Float (1/2)]\<rparr> False
     = Inr \<lparr>Etiqueta = [pystr ''a'', pystr ''b''], Puntaje = [Float (1/4), Float (1/2)]\<rparr>
   \<and> rows \<lparr>Etiqueta = [pystr ''a'', pystr ''b''], Puntaje = [Float (1/4), Float (1/2)]\<rparr>
     = [(pystr ''a'', Float (1/4)), (pystr ''b'', Float (1/2))]"
proof -
  have l: "length [pystr ''a'', pystr ''b''] = length [Float (1/4), Float (1/2)]"
    by simp
  show ?thesis
    using l shape_unsorted_identity [OF l] by simp
qed

text \<open>
  Claim C8, amended. \<open>multi_label\<close> and \<open>sort_desc\<close> start as true, and
  \<open>hypothesis_template\<close> starts as the Spanish sentence "Este texto trata sobre {}.".
\<close>

theorem default_options_values:
  "multi_label default_options = True \<and> sort_desc default_options = True
   \<and> hypothesis_template default_options = pystr ''Este texto trata sobre {}.''"
  by (simp add: default_options_def)

text \<open>
  Claim C8 as stated fails: the template does not start as "This text is about {}.".
\<close>

theorem default_template_counterexample:
  "hypothesis_template default_options \<noteq> pystr ''This text is about {}.''"
  by (simp add: default_options_def pystr_def)

section \<open>Properties of the button handler\<close>

lemma on_classify_no_text:
  "strip texto = [] \<Longrightarrow>
   on_classify clf fmt opts texto raw m
     = \<lparr>events = [St_warning msg_no_text], status = Stopped, model = m\<rparr>"
  by (simp add: on_classify_def)

lemma on_classify_no_labels:
  "strip texto \<noteq> [] \<Longrightarrow> parse_labels raw = [] \<Longrightarrow>
   on_classify clf fmt opts texto raw m
     = \<lparr>events = [St_warning msg_no_labels], status = Stopped, model = m\<rparr>"
  by (simp add: on_classify_def)

lemma on_classify_valid:
  assumes "strip texto \<noteq> []" and "parse_labels raw \<noteq> []"
  shows "on_classify clf fmt opts texto raw m =
     (case clf \<lparr>sequences = texto, candidate_labels = parse_labels raw,
                req_multi_label = multi_label opts,
                req_hypothesis_template = hypothesis_template opts\<rparr> m of
        (Inl e, m') \<Rightarrow>
          (if is_Exception e then
             \<lparr>events = [St_spinner msg_spinner, St_error (msg_error e)],
              status = Stopped, model = m'\<rparr>
           else
             \<lparr>events = [St_spinner msg_spinner], status = Crashed (Uncaught e),
              model = m'\<rparr>)
      | (Inr res, m') \<Rightarrow>
          (case shape res (sort_desc opts) of
             Inl err \<Rightarrow>
               \<lparr>events = [St_spinner msg_spinner], status = Crashed err, model = m'\<rparr>
           | Inr df \<Rightarrow>
               (case fmt (hypothesis_template opts) (pystr ''etiqueta'') of
                  Inl e \<Rightarrow>
                    \<lparr>events = [St_spinner msg_spinner,
                               St_subheader msg_results, St_dataframe df,
                               St_subheader msg_chart, St_bar_chart df],
                     status = Crashed (Format_Error e), model = m'\<rparr>
                | Inr hypothesis \<Rightarrow>
                    \<lparr>events = [St_spinner msg_spinner,
                               St_subheader msg_results, St_dataframe df,
                               St_subheader msg_chart, St_bar_chart df,
                               St_info (msg_info hypothesis)],
                     status = Completed, model = m'\<rparr>)))"
  using assms by (simp add: on_classify_def Let_def split: prod.splits sum.splits)

lemma strip_blank: "strip (pystr ''  '') = []"
  by (simp add: strip_def lstrip_def rstrip_def isspace_def pystr_def)



text \<open>
  Claim C2. When the text is empty or all whitespace, or no label is parsed, the run shows
  one warning and stops, and the state of the model is the one before the run whatever
  the model is: the model is not called.
\<close>

theorem validation_before_inference:
  assumes "strip texto = [] \<or> parse_labels raw = []"
  shows "\<exists>msg. on_classify clf fmt opts texto raw m
           = \<lparr>events = [St_warning msg], status = Stopped, model = m\<rparr>"
proof (cases "strip texto = []")
  case True
  then have "on_classify clf fmt opts texto raw m
      = \<lparr>events = [St_warning msg_no_text], status = Stopped, model = m\<rparr>"
    by (rule on_classify_no_text)
  then show ?thesis ..
next
  case False
  with assms have "parse_labels raw = []" by simp
  with False have "on_classify clf fmt opts texto raw m
      = \<lparr>events = [St_warning msg_no_labels], status = Stopped, model = m\<rparr>"
    by (rule on_classify_no_labels)
  then show ?thesis ..
qed

theorem validation_before_inference_witness:
  "(strip (pystr ''  '') = [] \<or> parse_labels (pystr ''a, b'') = [])
   \<and> (\<exists>msg. on_classify echo_model plain_format default_options
                (pystr ''  '') (pystr ''a, b'') 0
        = \<lparr>events = [St_warning msg], status = Stopped, model = 0\<rparr>)"
proof -
  have h: "strip (pystr ''  '') = [] \<or> parse_labels (pystr ''a, b'') = []"
    by (simp add: strip_blank)
  show ?thesis
    using h validation_before_inference [OF h, of echo_model plain_format default_options 0]
    by (rule conjI)
qed




lemma shape_no_unpack_error:
  assumes "ls \<noteq> []" and "length ls = length ss"
  shows "shape \<lparr>labels = ls, scores = ss\<rparr> sd \<noteq> Inl Unpack_ValueError"
proof -
  have "zip ls ss \<noteq> []"
    using assms by (cases ls; cases ss) auto
  then show ?thesis
    by (cases sd) (simp_all add: shape_sorted_nonempty, simp add: shape_def to_df_def)
qed

text \<open>
  Claim C10. Unpacking the sorted pairs of an empty answer raises ValueError; and when
  every answer of the model has one label and one score per candidate label, no run with
  \<open>sort_desc\<close> true ends in that ValueError.
\<close>

theorem unpack_failure_unreachable:
  assumes "\<And>req s res s'. clf req s = (Inr res, s') \<Longrightarrow>
             length (labels res) = length (candidate_labels req)
             \<and> length (scores res) = length (candidate_labels req)"
  shows "shape \<lparr>labels = [], scores = []\<rparr> True = Inl Unpack_ValueError
     \<and> status (on_classify clf fmt (opts\<lparr>sort_desc := True\<rparr>) texto raw m)
         \<noteq> Crashed Unpack_ValueError"
proof
  show "shape \<lparr>labels = [], scores = []\<rparr> True = Inl Unpack_ValueError"
    by (simp add: shape_sorted_empty)
  let ?opts = "opts\<lparr>sort_desc := True\<rparr>"
  let ?req = "\<lparr>sequences = texto, candidate_labels = parse_labels raw,
                req_multi_label = multi_label ?opts,
                req_hypothesis_template = hypothesis_template ?opts\<rparr>"
  show "status (on_classify clf fmt ?opts texto raw m) \<noteq> Crashed Unpack_ValueError"
  proof (cases "strip texto = [] \<or> parse_labels raw = []")
    case True
    then show ?thesis
      by (cases "strip texto = []") (simp_all add: on_classify_no_text on_classify_no_labels)
  next
    case False
    then have v: "strip texto \<noteq> []" "parse_labels raw \<noteq> []" by simp_all
    obtain r s' where c: "clf ?req m = (r, s')"
      by (cases "clf ?req m")
    show ?thesis
    proof (cases r)
      case (Inl e)
      then show ?thesis
        using c by (cases "is_Exception e") (simp_all add: on_classify_valid [OF v])
    next
      case (Inr res)
      then have "length (labels res) = length (parse_labels raw)"
        and "length (scores res) = length (parse_labels raw)"
        using assms [of ?req m res s'] c by simp_all
      then have "labels res \<noteq> []" and "length (labels res) = length (scores res)"
        using v(2) by auto
      then have "shape \<lparr>labels = labels res, scores = scores res\<rparr> True \<noteq> Inl Unpack_ValueError"
        by (rule shape_no_unpack_error)
      moreover have "res = \<lparr>labels = labels res, scores = scores res\<rparr>"
        by (cases res) simp
      ultimately have "shape res True \<noteq> Inl Unpack_ValueError"
        by simp
      then show ?thesis
        using c Inr by (auto simp: on_classify_valid [OF v] split: sum.splits)
    qed
  qed
qed

theorem unpack_failure_unreachable_witness:
  "shape \<lparr>labels = [], scores = []\<rparr> True = Inl Unpack_ValueError
   \<and> status (on_classify echo_model plain_format (default_options\<lparr>sort_desc := True\<rparr>)
        (pystr ''hola'') (pystr ''a, b'') 0)
     \<noteq> Crashed Unpack_ValueError"
proof -
  have h: "length (labels res) = length (candidate_labels req)
      \<and> length (scores res) = length (candidate_labels req)"
    if "echo_model req s = (Inr res, s')" for req s res s'
    using that by (auto simp: echo_model_def)
  show ?thesis
    by (rule unpack_failure_unreachable [of echo_model plain_format default_options
        "pystr ''hola''" "pystr ''a, b''" 0, OF h])
qed

end
